theory Spec2Isabelle
  imports Main "HOL-Library.Word"
begin

section \<open>The Kazar contract: treasury-gated disbursement and the minter set\<close>

text \<open>
  The Solidity contract \<open>Kazar\<close> is the inline source compiled and deployed by
  \<open>gas-fund-and-mint.js\<close>. This theory embeds the parts of it that own the treasury
  and the minter set: the constructor, \<open>addMinter\<close>, \<open>removeMinter\<close>, \<open>sweep\<close> and
  \<open>distributeIfBelowFromTreasury\<close>. The token functions (\<open>mintUniqueTokenTo\<close>,
  \<open>mintToMany\<close>, \<open>tokenURI\<close>, \<open>checkIn\<close>) touch neither and are left out.

  \<^item> \<open>address\<close> is a 160-bit word and \<open>uint256\<close> a 256-bit word, so \<open>+\<close> wraps
    exactly as the addition inside an \<open>unchecked\<close> block does.
  \<^item> The state holds the contract's storage (\<open>minter\<close>, the owner and the reentrancy
    flag of the two imported base contracts), its event log, and the part of the chain
    the contract reads and writes: the balance of every address.
  \<^item> A \<open>revert\<close> is the left branch of a sum; the chain then keeps the state from
    before the call (\<open>commit\<close>).
  \<^item> A value transfer runs the code of the recipient. That code belongs to the chain,
    not to the contract: it is a parameter of the state (\<open>receiver\<close>), free to revert
    or to move value between accounts before it returns. Gas is not modelled.
\<close>

subsection \<open>Data\<close>

type_synonym address = "160 word"
type_synonym uint256 = "256 word"
type_synonym ledger = "address \<Rightarrow> uint256"

text \<open>
  The code an address runs when it receives a plain value transfer: given the address,
  the value and the ledger that already holds the transfer, it reverts (\<open>None\<close>) or
  returns, leaving a ledger of its own making. The code sees the ledger only, not a
  storage of its own; no statement below depends on that: those about what recipients
  end up with are stated for recipients that run no code, the others hold whatever the
  sends do.
\<close>

type_synonym receiver_code = "address \<Rightarrow> uint256 \<Rightarrow> ledger \<Rightarrow> ledger option"

datatype event = MinterAdded address | MinterRemoved address

datatype error =
    Unauthorized
  | ReentrantCall
  | NotMinter
  | SweepFailed
  | InsufficientTreasury

record kazar =
  this_addr :: address
  owner :: address
  entered :: bool
  minter :: "address \<Rightarrow> bool"
  events :: "event list"
  balance :: ledger
  receiver :: receiver_code

text \<open>The state the chain keeps after a call: a revert rolls everything back.\<close>

definition commit :: "kazar \<Rightarrow> error + kazar \<Rightarrow> kazar" where
  "commit s r = (case r of Inl e \<Rightarrow> s | Inr s' \<Rightarrow> s')"

subsection \<open>Modifiers of the imported base contracts\<close>

text \<open>
  Modelled from the spec: the \<open>onlyOwner\<close> modifier and the constructor of the imported
  \<open>Ownable\<close> contract are not part of the sources. The spec has a single controller
  identity, the deployer at first, and the outcome \<open>Unauthorized\<close>, checked first, for
  every other caller.
\<close>

definition onlyOwner :: "address \<Rightarrow> kazar \<Rightarrow> (kazar \<Rightarrow> error + kazar) \<Rightarrow> error + kazar" where
  "onlyOwner sender s body = (if sender = owner s then body s else Inl Unauthorized)"

text \<open>
  Modelled from the spec: the \<open>nonReentrant\<close> modifier of the imported
  \<open>ReentrancyGuard\<close> is not part of the sources. The spec asks that no nested
  invocation of a treasury-mutating operation interleaves with a running one: the
  flag is set while the body runs, and a call that finds it set is refused.
\<close>

definition nonReentrant :: "kazar \<Rightarrow> (kazar \<Rightarrow> error + kazar) \<Rightarrow> error + kazar" where
  "nonReentrant s body =
     (if entered s then Inl ReentrantCall
      else case body (s\<lparr>entered := True\<rparr>) of
             Inl e \<Rightarrow> Inl e
           | Inr s' \<Rightarrow> Inr (s'\<lparr>entered := False\<rparr>))"

subsection \<open>The ledger\<close>

text \<open>
  The code run by a plain transfer to \<open>dst\<close>. The contract itself declares
  \<open>receive() external payable {}\<close>: it takes its own transfers and does nothing.
\<close>

definition on_receive :: "kazar \<Rightarrow> address \<Rightarrow> uint256 \<Rightarrow> ledger \<Rightarrow> ledger option" where
  "on_receive s dst v b = (if dst = this_addr s then Some b else receiver s dst v b)"

text \<open>
  \<open>dst.call{value: v}("")\<close> made by the contract. The call returns \<open>false\<close>, and moves
  nothing, when the contract holds less than \<open>v\<close>. Otherwise \<open>v\<close> leaves the
  contract's balance, is added to the recipient's, and the recipient's code runs: when
  it reverts the transfer is undone and the call returns \<open>false\<close>; when it returns,
  the call returns \<open>true\<close> and the ledger is the one that code left.

  The recipient's code may call back into the contract. \<open>sweep\<close> and
  \<open>distributeIfBelowFromTreasury\<close> are then refused by the guard, and the other
  functions move no value, so every effect such code can have on balances is a
  \<open>receiver_code\<close>; what an owner's code could do to the minter set meanwhile is
  left out.
\<close>

definition call_value :: "kazar \<Rightarrow> address \<Rightarrow> uint256 \<Rightarrow> bool \<times> kazar" where
  "call_value s dst v =
     (if balance s (this_addr s) < v then (False, s)
      else
        let b1 = (balance s)(this_addr s := balance s (this_addr s) - v);
            b2 = b1(dst := b1 dst + v)
        in case on_receive s dst v b2 of
             None \<Rightarrow> (False, s)
           | Some b3 \<Rightarrow> (True, s\<lparr>balance := b3\<rparr>))"

subsection \<open>The contract\<close>

text \<open>
  \<open>constructor() ERC721("KAZAR", "KZR") { minter[msg.sender] = true; }\<close>, deployed by
  \<open>sender\<close> at address \<open>self\<close> on a chain with balances \<open>bal\<close> and receiver code
  \<open>acc\<close>.
  The deployer becomes the owner (the constructor of \<open>Ownable\<close>, see above). Before
  the body runs no address is a minter, and the contract has emitted none of its
  events.
\<close>

definition constructor :: "address \<Rightarrow> address \<Rightarrow> ledger \<Rightarrow> receiver_code \<Rightarrow> kazar" where
  "constructor sender self bal acc =
     \<lparr>this_addr = self, owner = sender, entered = False,
      minter = (\<lambda>a. False)(sender := True), events = [],
      balance = bal, receiver = acc\<rparr>"

definition addMinter :: "address \<Rightarrow> address \<Rightarrow> kazar \<Rightarrow> error + kazar" where
  "addMinter sender account s =
     onlyOwner sender s (\<lambda>s.
       Inr (s\<lparr>minter := (minter s)(account := True),
             events := events s @ [MinterAdded account]\<rparr>))"

definition removeMinter :: "address \<Rightarrow> address \<Rightarrow> kazar \<Rightarrow> error + kazar" where
  "removeMinter sender account s =
     onlyOwner sender s (\<lambda>s.
       if \<not> minter s account then Inl NotMinter
       else Inr (s\<lparr>minter := (minter s)(account := False),
                  events := events s @ [MinterRemoved account]\<rparr>))"

definition sweep :: "address \<Rightarrow> address \<Rightarrow> uint256 \<Rightarrow> kazar \<Rightarrow> error + kazar" where
  "sweep sender dst v s =
     onlyOwner sender s (\<lambda>s. nonReentrant s (\<lambda>s.
       case call_value s dst v of
         (ok, s') \<Rightarrow> if \<not> ok then Inl SweepFailed else Inr s'))"

text \<open>
  The first loop of \<open>distributeIfBelowFromTreasury\<close>, inside \<open>unchecked\<close>:
  \<open>if (recipients[i].balance < threshold) need += amount;\<close>
\<close>

fun need_loop :: "kazar \<Rightarrow> address list \<Rightarrow> uint256 \<Rightarrow> uint256 \<Rightarrow> uint256 \<Rightarrow> uint256" where
  "need_loop s [] amount threshold need = need"
| "need_loop s (r # rs) amount threshold need =
     need_loop s rs amount threshold
       (if balance s r < threshold then need + amount else need)"

text \<open>
  The second loop. The zero address is skipped; the balance of each recipient is read
  when the loop reaches it; the result \<open>ok\<close> of the call is dropped by the source
  (\<open>ok; // touch var\<close>). The second component of the result is not computed by the
  source: it lists, in order, the recipients whose call returned \<open>true\<close>.
\<close>

fun distribute_loop :: "kazar \<Rightarrow> address list \<Rightarrow> uint256 \<Rightarrow> uint256 \<Rightarrow> kazar \<times> address list" where
  "distribute_loop s [] amount threshold = (s, [])"
| "distribute_loop s (dst # rs) amount threshold =
     (if dst = 0 then distribute_loop s rs amount threshold
      else if balance s dst < threshold then
        (let (ok, s') = call_value s dst amount;
             (s'', paid) = distribute_loop s' rs amount threshold
         in (s'', if ok then dst # paid else paid))
      else distribute_loop s rs amount threshold)"

definition distributeIfBelowFromTreasury ::
  "address \<Rightarrow> address list \<Rightarrow> uint256 \<Rightarrow> uint256 \<Rightarrow> kazar \<Rightarrow> error + kazar" where
  "distributeIfBelowFromTreasury sender recipients amount threshold s =
     onlyOwner sender s (\<lambda>s. nonReentrant s (\<lambda>s.
       let need = need_loop s recipients amount threshold 0
       in if balance s (this_addr s) < need then Inl InsufficientTreasury
          else Inr (fst (distribute_loop s recipients amount threshold))))"

text \<open>
  The recipients paid by an accepted batch, in the order of payment. The loop runs
  inside \<open>nonReentrant\<close>, with the flag set.
\<close>

definition paid_in_batch :: "kazar \<Rightarrow> address list \<Rightarrow> uint256 \<Rightarrow> uint256 \<Rightarrow> address list" where
  "paid_in_batch s recipients amount threshold =
     snd (distribute_loop (s\<lparr>entered := True\<rparr>) recipients amount threshold)"

subsection \<open>The requirement as the specification words it\<close>

text \<open>
  The specification's aggregate pre-check: \<open>required = sum(topupAmount for r in
  requests if r.currentBalance < r.threshold)\<close>, a sum of unbounded integers.
  The amount and the threshold are the same for every entry of a batch of the contract.
\<close>

definition spec_required :: "kazar \<Rightarrow> address list \<Rightarrow> uint256 \<Rightarrow> uint256 \<Rightarrow> nat" where
  "spec_required s rs amount threshold =
     sum_list (map (\<lambda>r. unat amount) (filter (\<lambda>r. balance s r < threshold) rs))"

subsection \<open>Recipients that run no code\<close>

text \<open>
  A chain on which a plain transfer runs no code: each address either takes the value
  (an externally owned account, a contract with an empty \<open>receive\<close>) or refuses it
  (a contract without a payable \<open>receive\<close>), always the same way.
\<close>

definition plain_accounts :: "(address \<Rightarrow> bool) \<Rightarrow> receiver_code" where
  "plain_accounts acc a v b = (if acc a then Some b else None)"

text \<open>
  A chain on which the code at \<open>a\<close> sends every plain transfer it receives on to
  \<open>home\<close>, and every other address takes the value and runs no code.
\<close>

definition returns_value :: "address \<Rightarrow> address \<Rightarrow> receiver_code" where
  "returns_value a home x v b =
     (if x = a then Some (b(a := b a - v, home := b home + v)) else Some b)"

subsection \<open>Example chains\<close>

text \<open>
  A contract at \<open>ex_kazar\<close>, freshly deployed by \<open>ex_owner\<close>, holding \<open>t\<close>; the
  recipients \<open>ex_R1\<close> and \<open>ex_R2\<close> hold \<open>b1\<close> and \<open>b2\<close>, every other address
  (the zero address too) holds nothing. In \<open>scenario\<close> no recipient runs code and
  \<open>acc\<close> tells who takes value; in \<open>scenario_returning\<close> the code at \<open>ex_R1\<close>
  sends what it receives back to the contract.
\<close>

definition ex_owner :: address where "ex_owner = 1"
definition ex_kazar :: address where "ex_kazar = 2"
definition ex_R1 :: address where "ex_R1 = 3"
definition ex_R2 :: address where "ex_R2 = 4"

definition scenario :: "(address \<Rightarrow> bool) \<Rightarrow> uint256 \<Rightarrow> uint256 \<Rightarrow> uint256 \<Rightarrow> kazar" where
  "scenario acc t b1 b2 =
     constructor ex_owner ex_kazar ((\<lambda>a. 0)(ex_kazar := t, ex_R1 := b1, ex_R2 := b2))
       (plain_accounts acc)"

definition scenario_returning :: "uint256 \<Rightarrow> uint256 \<Rightarrow> uint256 \<Rightarrow> kazar" where
  "scenario_returning t b1 b2 =
     constructor ex_owner ex_kazar ((\<lambda>a. 0)(ex_kazar := t, ex_R1 := b1, ex_R2 := b2))
       (returns_value ex_R1 ex_kazar)"

lemmas ex_defs = ex_owner_def ex_kazar_def ex_R1_def ex_R2_def scenario_def
  scenario_returning_def constructor_def plain_accounts_def returns_value_def

lemmas op_defs = distributeIfBelowFromTreasury_def onlyOwner_def nonReentrant_def
  call_value_def on_receive_def commit_def paid_in_batch_def Let_def

section \<open>Properties of the ledger call\<close>

lemma call_value_failed:
  "\<not> fst (call_value s dst v) \<Longrightarrow> snd (call_value s dst v) = s"
  by (simp add: call_value_def Let_def split: if_splits option.splits)

lemma call_value_this:
  "this_addr (snd (call_value s dst v)) = this_addr s"
  by (simp add: call_value_def Let_def split: option.splits)

lemma call_value_receiver:
  "receiver (snd (call_value s dst v)) = receiver s"
  by (simp add: call_value_def Let_def split: option.splits)

text \<open>Where no recipient runs code, a send that succeeds moves the value and nothing else.\<close>

lemma call_value_ok:
  assumes "receiver s = plain_accounts acc"
  shows "fst (call_value s dst v) \<longleftrightarrow>
     \<not> balance s (this_addr s) < v \<and> (dst = this_addr s \<or> acc dst)"
  using assms by (simp add: call_value_def Let_def on_receive_def plain_accounts_def)

lemma call_value_balance:
  assumes "receiver s = plain_accounts acc" "fst (call_value s dst v)"
  shows "balance (snd (call_value s dst v)) r =
     (if dst = this_addr s then balance s r
      else if r = dst then balance s r + v
      else if r = this_addr s then balance s r - v
      else balance s r)"
  using assms
  by (simp add: call_value_def Let_def on_receive_def plain_accounts_def split: if_splits)

section \<open>Properties of the two loops\<close>

lemma spec_required_count:
  "spec_required s rs amount threshold =
     length (filter (\<lambda>r. balance s r < threshold) rs) * unat amount"
  by (simp add: spec_required_def sum_list_triv)

lemma need_loop_acc:
  "need_loop s rs amount threshold acc =
     acc + of_nat (length (filter (\<lambda>r. balance s r < threshold) rs)) * amount"
  by (induction rs arbitrary: acc) (simp_all add: algebra_simps)

lemma unat_need_loop:
  "unat (need_loop s rs amount threshold 0) = spec_required s rs amount threshold mod 2 ^ 256"
  by (simp add: need_loop_acc spec_required_count unat_word_ariths unat_of_nat mod_mult_left_eq)

lemma need_loop_entered:
  "need_loop (s\<lparr>entered := b\<rparr>) rs amount threshold acc = need_loop s rs amount threshold acc"
  by (simp add: need_loop_acc)

text \<open>One round of the second loop: the entry is skipped, the send fails, or it pays.\<close>

lemma distribute_loop_skip:
  "dst = 0 \<or> \<not> balance s dst < threshold \<Longrightarrow>
   distribute_loop s (dst # rs) amount threshold = distribute_loop s rs amount threshold"
  by auto

lemma distribute_loop_failed:
  assumes "\<not> fst (call_value s dst amount)"
  shows "distribute_loop s (dst # rs) amount threshold = distribute_loop s rs amount threshold"
proof -
  from assms have "call_value s dst amount = (False, s)"
    using call_value_failed[OF assms] by (cases "call_value s dst amount") simp
  then show ?thesis by (simp add: case_prod_beta)
qed

lemma distribute_loop_paid:
  assumes "dst \<noteq> 0" "balance s dst < threshold" "fst (call_value s dst amount)"
  shows "distribute_loop s (dst # rs) amount threshold =
     (fst (distribute_loop (snd (call_value s dst amount)) rs amount threshold),
      dst # snd (distribute_loop (snd (call_value s dst amount)) rs amount threshold))"
  using assms by (simp add: case_prod_beta Let_def)

declare distribute_loop.simps(2) [simp del]

text \<open>
  What a run of the second loop does to the balances where no recipient runs code: the
  contract loses the amount once for every payment to another address, without
  underflow, and every other address gains it once for every payment it received.
\<close>

lemma distribute_loop_accounting:
  assumes "receiver s = plain_accounts acc"
  shows "unat (balance (fst (distribute_loop s rs amount threshold)) (this_addr s)) +
     unat amount * length (filter (\<lambda>r. r \<noteq> this_addr s)
                             (snd (distribute_loop s rs amount threshold)))
   = unat (balance s (this_addr s)) \<and>
   (\<forall>r. r \<noteq> this_addr s \<longrightarrow>
      balance (fst (distribute_loop s rs amount threshold)) r =
      balance s r + of_nat (count_list (snd (distribute_loop s rs amount threshold)) r) * amount)"
  using assms
proof (induction rs arbitrary: s)
  case Nil
  show ?case by simp
next
  case (Cons dst rs)
  let ?T = "this_addr s"
  note plain = Cons.prems
  show ?case
  proof (cases "dst \<noteq> 0 \<and> balance s dst < threshold \<and> fst (call_value s dst amount)")
    case False
    then have "distribute_loop s (dst # rs) amount threshold = distribute_loop s rs amount threshold"
      using distribute_loop_skip distribute_loop_failed by blast
    with Cons.IH[OF plain] show ?thesis by simp
  next
    case True
    let ?s1 = "snd (call_value s dst amount)"
    have step: "distribute_loop s (dst # rs) amount threshold =
      (fst (distribute_loop ?s1 rs amount threshold),
       dst # snd (distribute_loop ?s1 rs amount threshold))"
      using True by (intro distribute_loop_paid) simp_all
    have T1: "this_addr ?s1 = ?T" by (rule call_value_this)
    have plain1: "receiver ?s1 = plain_accounts acc"
      using plain by (simp add: call_value_receiver)
    have funds: "amount \<le> balance s ?T"
      using True by (simp add: call_value_ok[OF plain] not_less)
    note IH = Cons.IH[OF plain1, unfolded T1]
    show ?thesis
    proof (cases "dst = ?T")
      case self: True
      have "\<And>r. balance ?s1 r = balance s r"
        using True self by (simp add: call_value_balance[OF plain])
      with IH step self show ?thesis by simp
    next
      case other: False
      have bT: "unat (balance ?s1 ?T) = unat (balance s ?T) - unat amount"
        using True other funds by (simp add: call_value_balance[OF plain] unat_sub)
      have le: "unat amount \<le> unat (balance s ?T)"
        using funds by (simp add: word_le_nat_alt)
      have bd: "balance ?s1 dst = balance s dst + amount"
        using True other by (simp add: call_value_balance[OF plain])
      have br: "\<And>r. r \<noteq> ?T \<Longrightarrow> r \<noteq> dst \<Longrightarrow> balance ?s1 r = balance s r"
        using True other by (simp add: call_value_balance[OF plain])
      from IH have IH1: "unat (balance (fst (distribute_loop ?s1 rs amount threshold)) ?T) +
           unat amount * length (filter (\<lambda>r. r \<noteq> ?T) (snd (distribute_loop ?s1 rs amount threshold)))
         = unat (balance ?s1 ?T)" by blast
      from IH have IH2: "\<And>r. r \<noteq> ?T \<Longrightarrow>
          balance (fst (distribute_loop ?s1 rs amount threshold)) r =
          balance ?s1 r + of_nat (count_list (snd (distribute_loop ?s1 rs amount threshold)) r) * amount"
        by blast
      have A: "unat (balance (fst (distribute_loop s (dst # rs) amount threshold)) ?T) +
           unat amount * length (filter (\<lambda>r. r \<noteq> ?T) (snd (distribute_loop s (dst # rs) amount threshold)))
         = unat (balance s ?T)"
        using IH1 bT le other by (simp add: step)
      have B: "\<And>r. r \<noteq> ?T \<Longrightarrow>
          balance (fst (distribute_loop s (dst # rs) amount threshold)) r =
          balance s r + of_nat (count_list (snd (distribute_loop s (dst # rs) amount threshold)) r) * amount"
      proof -
        fix r assume r: "r \<noteq> ?T"
        show "balance (fst (distribute_loop s (dst # rs) amount threshold)) r =
          balance s r + of_nat (count_list (snd (distribute_loop s (dst # rs) amount threshold)) r) * amount"
        proof (cases "r = dst")
          case True
          with IH2[OF r] bd show ?thesis by (simp add: step algebra_simps)
        next
          case False
          with IH2[OF r] br[OF r] show ?thesis by (simp add: step)
        qed
      qed
      from A B show ?thesis by blast
    qed
  qed
qed

text \<open>
  Where no recipient runs code, an address other than the contract whose balance is
  not below the threshold is not paid, wherever it stands in the batch.
\<close>

lemma not_below_never_paid:
  assumes "receiver s = plain_accounts acc" "r \<noteq> this_addr s" "\<not> balance s r < threshold"
  shows "r \<notin> set (snd (distribute_loop s rs amount threshold))"
  using assms
proof (induction rs arbitrary: s)
  case Nil
  show ?case by simp
next
  case (Cons dst rs)
  note plain = Cons.prems(1)
  show ?case
  proof (cases "dst \<noteq> 0 \<and> balance s dst < threshold \<and> fst (call_value s dst amount)")
    case False
    then have "distribute_loop s (dst # rs) amount threshold = distribute_loop s rs amount threshold"
      using distribute_loop_skip distribute_loop_failed by blast
    with Cons.IH[of s] Cons.prems show ?thesis by simp
  next
    case True
    let ?s1 = "snd (call_value s dst amount)"
    have step: "snd (distribute_loop s (dst # rs) amount threshold) =
       dst # snd (distribute_loop ?s1 rs amount threshold)"
      using True by (simp add: distribute_loop_paid)
    have ne: "r \<noteq> dst" using True Cons.prems by auto
    have "balance ?s1 r = balance s r"
      using True ne Cons.prems by (simp add: call_value_balance[OF plain])
    with Cons.IH[of ?s1] Cons.prems have "r \<notin> set (snd (distribute_loop ?s1 rs amount threshold))"
      by (simp add: call_value_this call_value_receiver)
    with ne show ?thesis by (simp add: step)
  qed
qed


text \<open>
  Where no recipient runs code, the entries are distinct, none is the zero address or
  the contract, and the treasury holds the amount for every entry to be paid: the paid
  are exactly the entries below the threshold that take value.
\<close>

lemma paid_is_filter:
  assumes "receiver s = plain_accounts acc" "distinct rs" "0 \<notin> set rs"
    "this_addr s \<notin> set rs"
    "unat amount * length (filter (\<lambda>r. balance s r < threshold \<and> acc r) rs)
       \<le> unat (balance s (this_addr s))"
  shows "snd (distribute_loop s rs amount threshold) =
     filter (\<lambda>r. balance s r < threshold \<and> acc r) rs"
  using assms
proof (induction rs arbitrary: s)
  case Nil
  show ?case by simp
next
  case (Cons dst rs)
  note plain = Cons.prems(1)
  let ?T = "this_addr s"
  have d0: "dst \<noteq> 0" and dT: "dst \<noteq> ?T" and dn: "dst \<notin> set rs"
    using Cons.prems by auto
  have tail: "distinct rs" "0 \<notin> set rs" "?T \<notin> set rs"
    using Cons.prems by auto
  show ?case
  proof (cases "balance s dst < threshold \<and> acc dst")
    case False
    then have "\<not> balance s dst < threshold \<or> \<not> fst (call_value s dst amount)"
      using dT by (auto simp: call_value_ok[OF plain])
    then have skip: "distribute_loop s (dst # rs) amount threshold =
        distribute_loop s rs amount threshold"
      using distribute_loop_skip distribute_loop_failed by blast
    have "unat amount * length (filter (\<lambda>r. balance s r < threshold \<and> acc r) rs)
       \<le> unat (balance s ?T)"
      using Cons.prems(5) False by auto
    from Cons.IH[OF plain tail this] False show ?thesis by (auto simp: skip)
  next
    case True
    let ?s1 = "snd (call_value s dst amount)"
    let ?k = "length (filter (\<lambda>r. balance s r < threshold \<and> acc r) rs)"
    have tot: "unat amount * Suc ?k \<le> unat (balance s ?T)"
      using Cons.prems(5) True by simp
    then have le: "unat amount \<le> unat (balance s ?T)" by simp
    then have funds: "amount \<le> balance s ?T" by (simp add: word_le_nat_alt)
    have ok: "fst (call_value s dst amount)"
      using funds True by (simp add: call_value_ok[OF plain] not_less)
    have step: "snd (distribute_loop s (dst # rs) amount threshold) =
       dst # snd (distribute_loop ?s1 rs amount threshold)"
      using d0 True ok by (simp add: distribute_loop_paid)
    have plain1: "receiver ?s1 = plain_accounts acc"
      using plain by (simp add: call_value_receiver)
    have T1: "this_addr ?s1 = ?T" by (rule call_value_this)
    have same: "\<And>r. r \<in> set rs \<Longrightarrow> balance ?s1 r = balance s r"
      using ok dT dn tail(3) by (auto simp: call_value_balance[OF plain])
    have feq: "filter (\<lambda>r. balance ?s1 r < threshold \<and> acc r) rs =
               filter (\<lambda>r. balance s r < threshold \<and> acc r) rs"
      using same by (auto intro: filter_cong)
    have "unat (balance ?s1 ?T) = unat (balance s ?T) - unat amount"
      using ok dT funds by (simp add: call_value_balance[OF plain] unat_sub)
    with tot have rest: "unat amount * length (filter (\<lambda>r. balance ?s1 r < threshold \<and> acc r) rs)
       \<le> unat (balance ?s1 (this_addr ?s1))"
      by (simp add: feq T1)
    from Cons.IH[OF plain1 tail(1,2) _ rest] tail(3)
    have "snd (distribute_loop ?s1 rs amount threshold) =
        filter (\<lambda>r. balance s r < threshold \<and> acc r) rs"
      by (simp add: T1 feq)
    with True show ?thesis by (simp add: step)
  qed
qed

section \<open>The call as a whole\<close>

lemma distribute_by_owner:
  assumes "sender = owner s" "\<not> entered s"
  shows "distributeIfBelowFromTreasury sender rs amount threshold s =
     (if balance s (this_addr s) < need_loop s rs amount threshold 0
      then Inl InsufficientTreasury
      else Inr ((fst (distribute_loop (s\<lparr>entered := True\<rparr>) rs amount threshold))
                  \<lparr>entered := False\<rparr>))"
  using assms
  by (simp add: distributeIfBelowFromTreasury_def onlyOwner_def nonReentrant_def Let_def
      need_loop_entered)

lemma distribute_Inr:
  assumes "distributeIfBelowFromTreasury sender rs amount threshold s = Inr s'"
  shows "sender = owner s" "\<not> entered s"
    "\<not> balance s (this_addr s) < need_loop s rs amount threshold 0"
    "s' = (fst (distribute_loop (s\<lparr>entered := True\<rparr>) rs amount threshold))\<lparr>entered := False\<rparr>"
  using assms
  by (auto simp: distributeIfBelowFromTreasury_def onlyOwner_def nonReentrant_def Let_def
      need_loop_entered split: if_splits)

section \<open>The claims\<close>

text \<open>
  C1. As stated the claim fails: the source drops the result of each send, and there
  is no \<open>TransferRejected\<close> outcome. What holds: called by the owner, a batch accepted
  by the pre-check succeeds whatever its sends return. Where no recipient runs code,
  the entries are distinct, none is the zero address or the contract, and the treasury
  covers the summed top-ups of the under-threshold entries: every entry below the
  threshold that takes value ends with the amount added, every other entry (one that
  refuses the value too) keeps its balance, and the treasury has paid the amount once
  for each entry paid.
\<close>

theorem rejected_transfer_skipped:
  assumes "sender = owner s" "\<not> entered s"
    "\<not> balance s (this_addr s) < need_loop s rs amount threshold 0"
  shows "distributeIfBelowFromTreasury sender rs amount threshold s =
           Inr (commit s (distributeIfBelowFromTreasury sender rs amount threshold s)) \<and>
         (receiver s = plain_accounts acc \<longrightarrow> distinct rs \<longrightarrow> 0 \<notin> set rs \<longrightarrow>
          this_addr s \<notin> set rs \<longrightarrow>
          spec_required s rs amount threshold \<le> unat (balance s (this_addr s)) \<longrightarrow>
            (r \<in> set rs \<longrightarrow>
               balance (commit s (distributeIfBelowFromTreasury sender rs amount threshold s)) r =
                 (if balance s r < threshold \<and> acc r then balance s r + amount
                  else balance s r)) \<and>
            unat (balance (commit s (distributeIfBelowFromTreasury sender rs amount threshold s))
                    (this_addr s)) +
              unat amount * length (filter (\<lambda>x. balance s x < threshold \<and> acc x) rs)
              = unat (balance s (this_addr s)) \<and>
            paid_in_batch s rs amount threshold =
              filter (\<lambda>x. balance s x < threshold \<and> acc x) rs)"
proof -
  let ?s0 = "s\<lparr>entered := True\<rparr>"
  let ?D = "distributeIfBelowFromTreasury sender rs amount threshold s"
  let ?P = "\<lambda>x. balance s x < threshold \<and> acc x"
  have run: "?D = Inr ((fst (distribute_loop ?s0 rs amount threshold))\<lparr>entered := False\<rparr>)"
    using assms by (simp add: distribute_by_owner)
  then have A: "?D = Inr (commit s ?D)" by (simp add: commit_def)
  have bal: "balance (commit s ?D) = balance (fst (distribute_loop ?s0 rs amount threshold))"
    by (simp add: run commit_def)
  have B: "(r \<in> set rs \<longrightarrow>
               balance (commit s ?D) r =
                 (if ?P r then balance s r + amount else balance s r)) \<and>
            unat (balance (commit s ?D) (this_addr s)) + unat amount * length (filter ?P rs)
              = unat (balance s (this_addr s)) \<and>
            paid_in_batch s rs amount threshold = filter ?P rs"
    if plain: "receiver s = plain_accounts acc" and d: "distinct rs" and z: "0 \<notin> set rs"
      and t: "this_addr s \<notin> set rs"
      and cover: "spec_required s rs amount threshold \<le> unat (balance s (this_addr s))"
  proof -
    have plain0: "receiver ?s0 = plain_accounts acc" using plain by simp
    have "length (filter ?P rs) \<le> length (filter (\<lambda>x. balance s x < threshold) rs)"
      by (induction rs) auto
    then have "unat amount * length (filter ?P rs) \<le> spec_required s rs amount threshold"
      by (simp add: spec_required_count mult.commute)
    with cover have funds: "unat amount * length (filter (\<lambda>x. balance ?s0 x < threshold \<and> acc x) rs)
        \<le> unat (balance ?s0 (this_addr ?s0))" by simp
    have paid: "snd (distribute_loop ?s0 rs amount threshold) = filter ?P rs"
      using paid_is_filter[OF plain0 d z _ funds] t by simp
    note acct = distribute_loop_accounting[OF plain0, of rs amount threshold]
    have nT: "filter (\<lambda>x. balance s x < threshold \<and> acc x \<and> x \<noteq> this_addr s) rs = filter ?P rs"
      using t by (auto intro: filter_cong)
    have T: "unat (balance (commit s ?D) (this_addr s)) + unat amount * length (filter ?P rs)
              = unat (balance s (this_addr s))"
      using acct by (simp add: bal paid nT)
    have R: "balance (commit s ?D) r = (if ?P r then balance s r + amount else balance s r)"
      if r: "r \<in> set rs"
    proof -
      from r t have rT: "r \<noteq> this_addr s" by auto
      have "count_list (filter ?P rs) r = (if ?P r then 1 else 0)"
        using d r by (induction rs) auto
      with acct rT show ?thesis by (simp add: bal paid)
    qed
    from T R paid show ?thesis by (simp add: paid_in_batch_def)
  qed
  from A B show ?thesis by blast
qed

text \<open>
  Treasury 100, amount 30, threshold 1, \<open>R1\<close> and \<open>R2\<close> at 0, \<open>R2\<close> refusing value:
  \<open>R1\<close> ends at 30, \<open>R2\<close> stays at 0, the treasury ends at 70.
\<close>

theorem rejected_transfer_skipped_witness:
  "ex_owner = owner (scenario (\<lambda>a. a \<noteq> ex_R2) 100 0 0) \<and>
   \<not> entered (scenario (\<lambda>a. a \<noteq> ex_R2) 100 0 0) \<and>
   \<not> balance (scenario (\<lambda>a. a \<noteq> ex_R2) 100 0 0) (this_addr (scenario (\<lambda>a. a \<noteq> ex_R2) 100 0 0))
       < need_loop (scenario (\<lambda>a. a \<noteq> ex_R2) 100 0 0) [ex_R1, ex_R2] 30 1 0 \<and>
   receiver (scenario (\<lambda>a. a \<noteq> ex_R2) 100 0 0) = plain_accounts (\<lambda>a. a \<noteq> ex_R2) \<and>
   distinct [ex_R1, ex_R2] \<and> 0 \<notin> set [ex_R1, ex_R2] \<and>
   this_addr (scenario (\<lambda>a. a \<noteq> ex_R2) 100 0 0) \<notin> set [ex_R1, ex_R2] \<and>
   spec_required (scenario (\<lambda>a. a \<noteq> ex_R2) 100 0 0) [ex_R1, ex_R2] 30 1
     \<le> unat (balance (scenario (\<lambda>a. a \<noteq> ex_R2) 100 0 0)
               (this_addr (scenario (\<lambda>a. a \<noteq> ex_R2) 100 0 0))) \<and>
   balance (commit (scenario (\<lambda>a. a \<noteq> ex_R2) 100 0 0)
      (distributeIfBelowFromTreasury ex_owner [ex_R1, ex_R2] 30 1
         (scenario (\<lambda>a. a \<noteq> ex_R2) 100 0 0))) ex_R1 = 30 \<and>
   balance (commit (scenario (\<lambda>a. a \<noteq> ex_R2) 100 0 0)
      (distributeIfBelowFromTreasury ex_owner [ex_R1, ex_R2] 30 1
         (scenario (\<lambda>a. a \<noteq> ex_R2) 100 0 0))) ex_R2 = 0 \<and>
   unat (balance (commit (scenario (\<lambda>a. a \<noteq> ex_R2) 100 0 0)
      (distributeIfBelowFromTreasury ex_owner [ex_R1, ex_R2] 30 1
         (scenario (\<lambda>a. a \<noteq> ex_R2) 100 0 0))) ex_kazar) + 30 = 100"
proof -
  let ?s = "scenario (\<lambda>a. a \<noteq> ex_R2) 100 0 0"
  let ?D = "distributeIfBelowFromTreasury ex_owner [ex_R1, ex_R2] 30 1 ?s"
  have h1: "ex_owner = owner ?s" by (simp add: ex_defs)
  have h2: "\<not> entered ?s" by (simp add: ex_defs)
  have h3: "\<not> balance ?s (this_addr ?s) < need_loop ?s [ex_R1, ex_R2] 30 1 0"
    by (simp add: ex_defs)
  have h4: "receiver ?s = plain_accounts (\<lambda>a. a \<noteq> ex_R2)"
    by (simp add: scenario_def constructor_def)
  have h5: "distinct [ex_R1, ex_R2]" "0 \<notin> set [ex_R1, ex_R2]" "this_addr ?s \<notin> set [ex_R1, ex_R2]"
    by (simp_all add: ex_defs)
  have h6: "spec_required ?s [ex_R1, ex_R2] 30 1 \<le> unat (balance ?s (this_addr ?s))"
    by (simp add: ex_defs spec_required_def)
  have e: "this_addr ?s = ex_kazar" "balance ?s ex_R1 = 0" "balance ?s ex_R2 = 0"
    "balance ?s ex_kazar = 100" "ex_R1 \<noteq> ex_R2"
    by (simp_all add: ex_defs)
  from rejected_transfer_skipped[OF h1 h2 h3, of "\<lambda>a. a \<noteq> ex_R2" ex_R1] h4 h5 h6
  have r1: "balance (commit ?s ?D) ex_R1 = 30"
    by (simp add: e)
  from rejected_transfer_skipped[OF h1 h2 h3, of "\<lambda>a. a \<noteq> ex_R2" ex_R2] h4 h5 h6
  have r2: "balance (commit ?s ?D) ex_R2 = 0"
    and t: "unat (balance (commit ?s ?D) ex_kazar) + 30 = 100"
    by (simp_all add: e)
  from h1 h2 h3 h4 h5 h6 r1 r2 t show ?thesis by blast
qed

text \<open>
  The same chain and batch: the pre-check accepts the batch, \<open>R2\<close> is eligible and its
  send fails, yet the call succeeds and the payment to \<open>R1\<close> stays: \<open>R1\<close> ends at 30
  and the treasury at 70.
\<close>

theorem rejected_transfer_counterexample:
  "\<not> balance (scenario (\<lambda>a. a \<noteq> ex_R2) 100 0 0) (this_addr (scenario (\<lambda>a. a \<noteq> ex_R2) 100 0 0))
       < need_loop (scenario (\<lambda>a. a \<noteq> ex_R2) 100 0 0) [ex_R1, ex_R2] 30 1 0 \<and>
   balance (scenario (\<lambda>a. a \<noteq> ex_R2) 100 0 0) ex_R2 < 1 \<and>
   \<not> fst (call_value (scenario (\<lambda>a. a \<noteq> ex_R2) 100 0 0) ex_R2 30) \<and>
   distributeIfBelowFromTreasury ex_owner [ex_R1, ex_R2] 30 1 (scenario (\<lambda>a. a \<noteq> ex_R2) 100 0 0)
     = Inr (commit (scenario (\<lambda>a. a \<noteq> ex_R2) 100 0 0)
         (distributeIfBelowFromTreasury ex_owner [ex_R1, ex_R2] 30 1
            (scenario (\<lambda>a. a \<noteq> ex_R2) 100 0 0))) \<and>
   balance (scenario (\<lambda>a. a \<noteq> ex_R2) 100 0 0) ex_R1 = 0 \<and>
   balance (commit (scenario (\<lambda>a. a \<noteq> ex_R2) 100 0 0)
      (distributeIfBelowFromTreasury ex_owner [ex_R1, ex_R2] 30 1
         (scenario (\<lambda>a. a \<noteq> ex_R2) 100 0 0))) ex_R1 = 30 \<and>
   balance (commit (scenario (\<lambda>a. a \<noteq> ex_R2) 100 0 0)
      (distributeIfBelowFromTreasury ex_owner [ex_R1, ex_R2] 30 1
         (scenario (\<lambda>a. a \<noteq> ex_R2) 100 0 0))) ex_kazar = 70"
  by (simp add: ex_defs op_defs distribute_loop.simps(2))

text \<open>
  C2. The second loop skips the zero address, but the first loop counts it. With the
  zero address and \<open>R2\<close> both at 0, amount 30 and threshold 1, the requirement is 60
  and not 30. With a treasury of 100 (Scenario D) the outcome is the one claimed:
  \<open>R2\<close> is paid 30 and the treasury ends at 70. With a treasury of 40 the batch
  reverts with \<open>InsufficientTreasury\<close>, although \<open>R2\<close> alone is paid from the same
  treasury: the zero address changes the outcome for \<open>R2\<close>.
\<close>

theorem zero_address_counted:
  "need_loop (scenario (\<lambda>a. True) 100 0 0) [0, ex_R2] 30 1 0 = 60 \<and>
   paid_in_batch (scenario (\<lambda>a. True) 100 0 0) [0, ex_R2] 30 1 = [ex_R2] \<and>
   balance (commit (scenario (\<lambda>a. True) 100 0 0)
      (distributeIfBelowFromTreasury ex_owner [0, ex_R2] 30 1 (scenario (\<lambda>a. True) 100 0 0)))
      ex_R2 = 30 \<and>
   balance (commit (scenario (\<lambda>a. True) 100 0 0)
      (distributeIfBelowFromTreasury ex_owner [0, ex_R2] 30 1 (scenario (\<lambda>a. True) 100 0 0)))
      ex_kazar = 70 \<and>
   distributeIfBelowFromTreasury ex_owner [0, ex_R2] 30 1 (scenario (\<lambda>a. True) 40 0 0)
     = Inl InsufficientTreasury \<and>
   balance (commit (scenario (\<lambda>a. True) 40 0 0)
      (distributeIfBelowFromTreasury ex_owner [ex_R2] 30 1 (scenario (\<lambda>a. True) 40 0 0)))
      ex_R2 = 30"
  by (simp add: ex_defs op_defs distribute_loop.simps(2))

text \<open>
  C3. As stated, with the sum taken over the integers, the claim fails: the source adds
  inside \<open>unchecked\<close>, so the requirement is the sum modulo \<open>2 ^ 256\<close>. What holds:
  called by the owner, a batch whose summed top-ups of the under-threshold entries,
  reduced modulo \<open>2 ^ 256\<close>, exceed the treasury balance reverts with
  \<open>InsufficientTreasury\<close>, and no balance changes.
\<close>

theorem insufficient_treasury_gate:
  assumes "sender = owner s" "\<not> entered s"
    "unat (balance s (this_addr s)) < spec_required s rs amount threshold mod 2 ^ 256"
  shows "distributeIfBelowFromTreasury sender rs amount threshold s = Inl InsufficientTreasury \<and>
         commit s (distributeIfBelowFromTreasury sender rs amount threshold s) = s"
proof -
  have "balance s (this_addr s) < need_loop s rs amount threshold 0"
    using assms(3) by (simp add: word_less_nat_alt unat_need_loop)
  then show ?thesis
    using assms(1,2) by (simp add: distribute_by_owner commit_def)
qed

text \<open>Scenario B of the specification: treasury 40, two recipients at 0, amount 30.\<close>

theorem insufficient_treasury_gate_witness:
  "ex_owner = owner (scenario (\<lambda>a. True) 40 0 0) \<and>
   \<not> entered (scenario (\<lambda>a. True) 40 0 0) \<and>
   distributeIfBelowFromTreasury ex_owner [ex_R1, ex_R2] 30 1 (scenario (\<lambda>a. True) 40 0 0)
     = Inl InsufficientTreasury"
proof -
  let ?s = "scenario (\<lambda>a. True) 40 0 0"
  have h1: "ex_owner = owner ?s" by (simp add: ex_defs)
  have h2: "\<not> entered ?s" by (simp add: ex_defs)
  have h3: "unat (balance ?s (this_addr ?s)) < spec_required ?s [ex_R1, ex_R2] 30 1 mod 2 ^ 256"
    by (simp add: ex_defs spec_required_def)
  show ?thesis using h1 h2 insufficient_treasury_gate[OF h1 h2 h3] by simp
qed

text \<open>
  Treasury 5, two recipients at 0, amount \<open>2 ^ 255\<close>: the sum \<open>2 ^ 256\<close> exceeds the
  treasury, yet the call succeeds (and, both sends failing for lack of funds, changes
  nothing).
\<close>

theorem insufficient_treasury_gate_counterexample:
  "unat (balance (scenario (\<lambda>a. True) 5 0 0) (this_addr (scenario (\<lambda>a. True) 5 0 0)))
     < spec_required (scenario (\<lambda>a. True) 5 0 0) [ex_R1, ex_R2] (2 ^ 255) 1 \<and>
   distributeIfBelowFromTreasury ex_owner [ex_R1, ex_R2] (2 ^ 255) 1 (scenario (\<lambda>a. True) 5 0 0)
     = Inr (scenario (\<lambda>a. True) 5 0 0)"
  by (simp add: ex_defs op_defs distribute_loop.simps(2) spec_required_def)




text \<open>
  Why the recipients must run no code: where the code of \<open>R1\<close> sends what it receives
  back to the contract, \<open>R1\<close> is at 0 again when the loop reaches its second entry, and
  the same batch pays it twice; the treasury ends at 100.
\<close>

lemma returning_recipient_paid_twice:
  "distributeIfBelowFromTreasury ex_owner [ex_R1, ex_R1] 30 1 (scenario_returning 100 0 0)
     = Inr (commit (scenario_returning 100 0 0)
         (distributeIfBelowFromTreasury ex_owner [ex_R1, ex_R1] 30 1 (scenario_returning 100 0 0))) \<and>
   paid_in_batch (scenario_returning 100 0 0) [ex_R1, ex_R1] 30 1 = [ex_R1, ex_R1] \<and>
   balance (commit (scenario_returning 100 0 0)
         (distributeIfBelowFromTreasury ex_owner [ex_R1, ex_R1] 30 1 (scenario_returning 100 0 0)))
         ex_kazar = 100 \<and>
   balance (commit (scenario_returning 100 0 0)
         (distributeIfBelowFromTreasury ex_owner [ex_R1, ex_R1] 30 1 (scenario_returning 100 0 0)))
         ex_R1 = 0"
  by (simp add: ex_defs op_defs distribute_loop.simps(2))

text \<open>
  C5. As stated the claim fails in three ways: a recipient that occurs twice and is
  still below the threshold after the first payment gains the amount twice; a payment
  to the contract's own address leaves the treasury balance as it was; and a recipient
  whose code passes the value on does not keep it. What holds after every successful
  call on a chain where no recipient runs code: the treasury balance went down by the
  amount once for every payment made to an address other than the contract, never
  below zero, and every other address went up by the amount once for every payment it
  received (an exact increase whenever the new balance fits 256 bits).
\<close>

theorem exact_accounting:
  assumes "distributeIfBelowFromTreasury sender rs amount threshold s = Inr s'"
    "receiver s = plain_accounts acc"
  shows "unat (balance s' (this_addr s)) +
           unat amount * length (filter (\<lambda>x. x \<noteq> this_addr s)
                                   (paid_in_batch s rs amount threshold))
         = unat (balance s (this_addr s)) \<and>
         (r \<noteq> this_addr s \<longrightarrow>
            balance s' r =
              balance s r + of_nat (count_list (paid_in_batch s rs amount threshold) r) * amount) \<and>
         (r \<noteq> this_addr s \<longrightarrow>
            unat (balance s r) + count_list (paid_in_batch s rs amount threshold) r * unat amount
              < 2 ^ 256 \<longrightarrow>
            unat (balance s' r) =
              unat (balance s r) + count_list (paid_in_batch s rs amount threshold) r * unat amount)"
proof -
  let ?s0 = "s\<lparr>entered := True\<rparr>"
  let ?paid = "paid_in_batch s rs amount threshold"
  have s': "s' = (fst (distribute_loop ?s0 rs amount threshold))\<lparr>entered := False\<rparr>"
    using distribute_Inr(4)[OF assms(1)] .
  have bal: "balance s' = balance (fst (distribute_loop ?s0 rs amount threshold))"
    by (simp add: s')
  have paid: "?paid = snd (distribute_loop ?s0 rs amount threshold)"
    by (simp add: paid_in_batch_def)
  have "receiver ?s0 = plain_accounts acc" using assms(2) by simp
  note acc = distribute_loop_accounting[OF this, of rs amount threshold]
  have A: "unat (balance s' (this_addr s)) +
           unat amount * length (filter (\<lambda>x. x \<noteq> this_addr s) ?paid)
         = unat (balance s (this_addr s))"
    using acc by (simp add: bal paid)
  have B: "r \<noteq> this_addr s \<longrightarrow>
            balance s' r = balance s r + of_nat (count_list ?paid r) * amount"
    using acc by (simp add: bal paid)
  have C: "r \<noteq> this_addr s \<longrightarrow>
            unat (balance s r) + count_list ?paid r * unat amount < 2 ^ 256 \<longrightarrow>
            unat (balance s' r) = unat (balance s r) + count_list ?paid r * unat amount"
  proof (intro impI)
    assume r: "r \<noteq> this_addr s"
      and fit: "unat (balance s r) + count_list ?paid r * unat amount < 2 ^ 256"
    from B r have "unat (balance s' r) =
        unat (balance s r + of_nat (count_list ?paid r) * amount)" by simp
    also have "\<dots> = (unat (balance s r) + count_list ?paid r * unat amount) mod 2 ^ 256"
      by (simp add: unat_word_ariths unat_of_nat mod_add_right_eq mod_mult_left_eq)
    also have "\<dots> = unat (balance s r) + count_list ?paid r * unat amount"
      using fit by simp
    finally show "unat (balance s' r) = unat (balance s r) + count_list ?paid r * unat amount" .
  qed
  from A B C show ?thesis by blast
qed

text \<open>Treasury 100, two recipients at 0, amount 30, threshold 1: both paid, 40 left.\<close>

theorem exact_accounting_witness:
  "distributeIfBelowFromTreasury ex_owner [ex_R1, ex_R2] 30 1 (scenario (\<lambda>a. True) 100 0 0)
     = Inr (commit (scenario (\<lambda>a. True) 100 0 0)
         (distributeIfBelowFromTreasury ex_owner [ex_R1, ex_R2] 30 1 (scenario (\<lambda>a. True) 100 0 0))) \<and>
   receiver (scenario (\<lambda>a. True) 100 0 0) = plain_accounts (\<lambda>a. True) \<and>
   paid_in_batch (scenario (\<lambda>a. True) 100 0 0) [ex_R1, ex_R2] 30 1 = [ex_R1, ex_R2] \<and>
   unat (balance (commit (scenario (\<lambda>a. True) 100 0 0)
         (distributeIfBelowFromTreasury ex_owner [ex_R1, ex_R2] 30 1 (scenario (\<lambda>a. True) 100 0 0)))
         ex_kazar) + 30 * 2 = 100 \<and>
   balance (commit (scenario (\<lambda>a. True) 100 0 0)
         (distributeIfBelowFromTreasury ex_owner [ex_R1, ex_R2] 30 1 (scenario (\<lambda>a. True) 100 0 0)))
         ex_R1 = 30"
proof -
  let ?s = "scenario (\<lambda>a. True) 100 0 0"
  let ?s' = "commit ?s (distributeIfBelowFromTreasury ex_owner [ex_R1, ex_R2] 30 1 ?s)"
  have h: "distributeIfBelowFromTreasury ex_owner [ex_R1, ex_R2] 30 1 ?s = Inr ?s'"
    by (simp add: ex_defs op_defs distribute_loop.simps(2))
  have q: "receiver ?s = plain_accounts (\<lambda>a. True)"
    by (simp add: scenario_def constructor_def)
  have p: "paid_in_batch ?s [ex_R1, ex_R2] 30 1 = [ex_R1, ex_R2]"
    by (simp add: ex_defs op_defs distribute_loop.simps(2))
  have t: "this_addr ?s = ex_kazar" "balance ?s ex_kazar = 100" "balance ?s ex_R1 = 0"
    "ex_R1 \<noteq> ex_kazar" "ex_R2 \<noteq> ex_kazar" "ex_R2 \<noteq> ex_R1"
    by (simp_all add: ex_defs)
  from exact_accounting[OF h q, of ex_R1]
  have "unat (balance ?s' ex_kazar) + 30 * 2 = 100 \<and> balance ?s' ex_R1 = 30"
    unfolding p t using t(4,5,6) by simp
  with h q p show ?thesis by blast
qed

text \<open>
  Treasury 100, amount 30. The batch \<open>[R1, R1]\<close> with threshold 100 pays \<open>R1\<close> twice:
  its balance goes from 0 to 60, not to 30. The batch holding only the contract's own
  address, with threshold 1000, pays the contract, and the treasury stays at 100. Where
  the code of \<open>R1\<close> sends what it receives back to the contract, the batch \<open>[R1]\<close>
  with threshold 1 pays \<open>R1\<close>, and afterwards the treasury holds 100 and \<open>R1\<close>
  nothing.
\<close>

theorem exact_accounting_counterexample:
  "distributeIfBelowFromTreasury ex_owner [ex_R1, ex_R1] 30 100 (scenario (\<lambda>a. True) 100 0 0)
     = Inr (commit (scenario (\<lambda>a. True) 100 0 0)
         (distributeIfBelowFromTreasury ex_owner [ex_R1, ex_R1] 30 100 (scenario (\<lambda>a. True) 100 0 0))) \<and>
   ex_R1 \<in> set (paid_in_batch (scenario (\<lambda>a. True) 100 0 0) [ex_R1, ex_R1] 30 100) \<and>
   balance (scenario (\<lambda>a. True) 100 0 0) ex_R1 = 0 \<and>
   balance (commit (scenario (\<lambda>a. True) 100 0 0)
         (distributeIfBelowFromTreasury ex_owner [ex_R1, ex_R1] 30 100 (scenario (\<lambda>a. True) 100 0 0)))
         ex_R1 = 60 \<and>
   distributeIfBelowFromTreasury ex_owner [ex_kazar] 30 1000 (scenario (\<lambda>a. True) 100 0 0)
     = Inr (commit (scenario (\<lambda>a. True) 100 0 0)
         (distributeIfBelowFromTreasury ex_owner [ex_kazar] 30 1000 (scenario (\<lambda>a. True) 100 0 0))) \<and>
   paid_in_batch (scenario (\<lambda>a. True) 100 0 0) [ex_kazar] 30 1000 = [ex_kazar] \<and>
   balance (scenario (\<lambda>a. True) 100 0 0) ex_kazar = 100 \<and>
   balance (commit (scenario (\<lambda>a. True) 100 0 0)
         (distributeIfBelowFromTreasury ex_owner [ex_kazar] 30 1000 (scenario (\<lambda>a. True) 100 0 0)))
         ex_kazar = 100 \<and>
   distributeIfBelowFromTreasury ex_owner [ex_R1] 30 1 (scenario_returning 100 0 0)
     = Inr (commit (scenario_returning 100 0 0)
         (distributeIfBelowFromTreasury ex_owner [ex_R1] 30 1 (scenario_returning 100 0 0))) \<and>
   paid_in_batch (scenario_returning 100 0 0) [ex_R1] 30 1 = [ex_R1] \<and>
   balance (commit (scenario_returning 100 0 0)
         (distributeIfBelowFromTreasury ex_owner [ex_R1] 30 1 (scenario_returning 100 0 0)))
         ex_kazar = 100 \<and>
   balance (commit (scenario_returning 100 0 0)
         (distributeIfBelowFromTreasury ex_owner [ex_R1] 30 1 (scenario_returning 100 0 0)))
         ex_R1 = 0"
  by (simp add: ex_defs op_defs distribute_loop.simps(2))

text \<open>
  C6. A call of \<open>distributeIfBelowFromTreasury\<close>, \<open>sweep\<close>, \<open>addMinter\<close> or
  \<open>removeMinter\<close> by anybody but the owner is refused as \<open>Unauthorized\<close>, whatever the
  batch, the funds and the reentrancy flag are (the check comes first), and the state
  stays as it was.
\<close>

theorem non_owner_unauthorized:
  assumes "sender \<noteq> owner s"
  shows "distributeIfBelowFromTreasury sender rs amount threshold s = Inl Unauthorized \<and>
         sweep sender dst v s = Inl Unauthorized \<and>
         addMinter sender a s = Inl Unauthorized \<and>
         removeMinter sender a s = Inl Unauthorized \<and>
         commit s (distributeIfBelowFromTreasury sender rs amount threshold s) = s \<and>
         commit s (sweep sender dst v s) = s \<and>
         commit s (addMinter sender a s) = s \<and>
         commit s (removeMinter sender a s) = s"
  using assms
  by (simp add: distributeIfBelowFromTreasury_def sweep_def addMinter_def removeMinter_def
      onlyOwner_def commit_def)

theorem non_owner_unauthorized_witness:
  "ex_R1 \<noteq> owner (scenario (\<lambda>a. True) 100 0 0) \<and>
   distributeIfBelowFromTreasury ex_R1 [ex_R1] 30 1 (scenario (\<lambda>a. True) 100 0 0)
     = Inl Unauthorized \<and>
   sweep ex_R1 ex_R1 100 (scenario (\<lambda>a. True) 100 0 0) = Inl Unauthorized \<and>
   addMinter ex_R1 ex_R1 (scenario (\<lambda>a. True) 100 0 0) = Inl Unauthorized \<and>
   removeMinter ex_R1 ex_owner (scenario (\<lambda>a. True) 100 0 0) = Inl Unauthorized"
proof -
  let ?s = "scenario (\<lambda>a. True) 100 0 0"
  have h: "ex_R1 \<noteq> owner ?s" by (simp add: ex_defs)
  show ?thesis
    using h non_owner_unauthorized[OF h, of "[ex_R1]" 30 1 ex_R1 100 ex_R1]
      non_owner_unauthorized[OF h, of "[]" 0 0 0 0 ex_owner]
    by simp
qed

text \<open>
  C7. The comparison is strict, but as stated the claim fails for the contract's own
  address: at the threshold on entry, it is below it once another recipient has been
  paid, and is then paid itself. What holds: an address whose balance equals the
  threshold adds nothing to the requirement (the batch without it needs the same);
  when the second loop reaches an address whose balance equals the threshold, the
  round does nothing; and, where no recipient runs code, an address other than the
  contract whose balance equals the threshold on entry is paid by no batch: it is not
  among the paid and keeps its balance.
\<close>

theorem at_threshold_not_paid:
  assumes "balance s r = threshold"
  shows "need_loop s rs amount threshold 0 =
           need_loop s (filter (\<lambda>x. x \<noteq> r) rs) amount threshold 0 \<and>
         distribute_loop s (r # rs) amount threshold = distribute_loop s rs amount threshold \<and>
         (r \<noteq> this_addr s \<longrightarrow> receiver s = plain_accounts acc \<longrightarrow>
            r \<notin> set (paid_in_batch s rs amount threshold) \<and>
            balance (commit s (distributeIfBelowFromTreasury sender rs amount threshold s)) r
              = balance s r)"
proof -
  let ?s0 = "s\<lparr>entered := True\<rparr>"
  have nb: "\<not> balance s r < threshold" using assms by simp
  have "filter (\<lambda>x. balance s x < threshold) (filter (\<lambda>x. x \<noteq> r) rs) =
        filter (\<lambda>x. balance s x < threshold) rs"
    using nb by (auto intro: filter_cong)
  then have A: "need_loop s rs amount threshold 0 =
           need_loop s (filter (\<lambda>x. x \<noteq> r) rs) amount threshold 0"
    by (simp add: need_loop_acc)
  have B: "distribute_loop s (r # rs) amount threshold = distribute_loop s rs amount threshold"
    using nb by (simp add: distribute_loop_skip)
  have C: "r \<notin> set (paid_in_batch s rs amount threshold) \<and>
            balance (commit s (distributeIfBelowFromTreasury sender rs amount threshold s)) r
              = balance s r"
    if rT: "r \<noteq> this_addr s" and plain: "receiver s = plain_accounts acc"
  proof -
    have plain0: "receiver ?s0 = plain_accounts acc" using plain by simp
    have np: "r \<notin> set (paid_in_batch s rs amount threshold)"
      using not_below_never_paid[OF plain0, of r threshold rs amount] rT nb
      by (simp add: paid_in_batch_def)
    have "balance (commit s (distributeIfBelowFromTreasury sender rs amount threshold s)) r
              = balance s r"
    proof (cases "distributeIfBelowFromTreasury sender rs amount threshold s")
      case (Inl e)
      then show ?thesis by (simp add: commit_def)
    next
      case (Inr s')
      have "balance s' r =
          balance s r + of_nat (count_list (paid_in_batch s rs amount threshold) r) * amount"
        using distribute_loop_accounting[OF plain0, of rs amount threshold] rT
          distribute_Inr(4)[OF Inr]
        by (simp add: paid_in_batch_def)
      with np Inr show ?thesis by (simp add: commit_def count_list_0_iff)
    qed
    with np show ?thesis by blast
  qed
  from A B C show ?thesis by blast
qed

text \<open>
  Treasury 100, amount 30, threshold 5, \<open>R1\<close> at 5 and \<open>R2\<close> at 0: only \<open>R2\<close> is paid.
\<close>

theorem at_threshold_not_paid_witness:
  "balance (scenario (\<lambda>a. True) 100 5 0) ex_R1 = 5 \<and>
   ex_R1 \<noteq> this_addr (scenario (\<lambda>a. True) 100 5 0) \<and>
   receiver (scenario (\<lambda>a. True) 100 5 0) = plain_accounts (\<lambda>a. True) \<and>
   need_loop (scenario (\<lambda>a. True) 100 5 0) [ex_R1, ex_R2] 30 5 0 = 30 \<and>
   paid_in_batch (scenario (\<lambda>a. True) 100 5 0) [ex_R1, ex_R2] 30 5 = [ex_R2] \<and>
   ex_R1 \<notin> set (paid_in_batch (scenario (\<lambda>a. True) 100 5 0) [ex_R1, ex_R2] 30 5) \<and>
   balance (commit (scenario (\<lambda>a. True) 100 5 0)
      (distributeIfBelowFromTreasury ex_owner [ex_R1, ex_R2] 30 5 (scenario (\<lambda>a. True) 100 5 0)))
      ex_R1 = 5"
proof -
  let ?s = "scenario (\<lambda>a. True) 100 5 0"
  have h: "balance ?s ex_R1 = 5" by (simp add: ex_defs)
  have t: "ex_R1 \<noteq> this_addr ?s" by (simp add: ex_defs)
  have q: "receiver ?s = plain_accounts (\<lambda>a. True)"
    by (simp add: scenario_def constructor_def)
  have n: "need_loop ?s [ex_R1, ex_R2] 30 5 0 = 30" by (simp add: ex_defs)
  have p: "paid_in_batch ?s [ex_R1, ex_R2] 30 5 = [ex_R2]"
    by (simp add: ex_defs op_defs distribute_loop.simps(2))
  from at_threshold_not_paid[OF h, of "[ex_R1, ex_R2]" 30 "\<lambda>a. True" ex_owner] t q
  have r: "ex_R1 \<notin> set (paid_in_batch ?s [ex_R1, ex_R2] 30 5) \<and>
     balance (commit ?s (distributeIfBelowFromTreasury ex_owner [ex_R1, ex_R2] 30 5 ?s)) ex_R1 = 5"
    unfolding h by blast
  from h t q n p r show ?thesis by blast
qed

text \<open>
  Treasury 100, amount 30, threshold 100, the batch made of \<open>R1\<close> (at 0) and the
  contract's own address: the contract is at the threshold on entry and adds nothing
  to the requirement, the call succeeds, and the contract is paid after \<open>R1\<close>.
\<close>

theorem at_threshold_counterexample:
  "balance (scenario (\<lambda>a. True) 100 0 0) ex_kazar = 100 \<and>
   this_addr (scenario (\<lambda>a. True) 100 0 0) = ex_kazar \<and>
   need_loop (scenario (\<lambda>a. True) 100 0 0) [ex_R1, ex_kazar] 30 100 0 = 30 \<and>
   distributeIfBelowFromTreasury ex_owner [ex_R1, ex_kazar] 30 100 (scenario (\<lambda>a. True) 100 0 0)
     = Inr (commit (scenario (\<lambda>a. True) 100 0 0)
         (distributeIfBelowFromTreasury ex_owner [ex_R1, ex_kazar] 30 100
            (scenario (\<lambda>a. True) 100 0 0))) \<and>
   paid_in_batch (scenario (\<lambda>a. True) 100 0 0) [ex_R1, ex_kazar] 30 100 = [ex_R1, ex_kazar] \<and>
   ex_kazar \<in> set (paid_in_batch (scenario (\<lambda>a. True) 100 0 0) [ex_R1, ex_kazar] 30 100)"
  by (simp add: ex_defs op_defs distribute_loop.simps(2))

text \<open>
  C8. Called by the owner, \<open>removeMinter\<close> of a non-member reverts with \<open>NotMinter\<close>
  and the state stays as it was; \<open>addMinter\<close> of a member succeeds and only appends
  the event: the minter set is the same afterwards.
\<close>

theorem minter_set_idempotent:
  assumes "sender = owner s"
  shows "(\<not> minter s a \<longrightarrow>
            removeMinter sender a s = Inl NotMinter \<and>
            commit s (removeMinter sender a s) = s) \<and>
         (minter s b \<longrightarrow>
            addMinter sender b s = Inr (s\<lparr>events := events s @ [MinterAdded b]\<rparr>) \<and>
            minter (commit s (addMinter sender b s)) = minter s)"
  using assms
  by (auto simp: removeMinter_def addMinter_def onlyOwner_def commit_def fun_upd_idem)

theorem minter_set_idempotent_witness:
  "ex_owner = owner (scenario (\<lambda>a. True) 100 0 0) \<and>
   \<not> minter (scenario (\<lambda>a. True) 100 0 0) ex_R1 \<and>
   removeMinter ex_owner ex_R1 (scenario (\<lambda>a. True) 100 0 0) = Inl NotMinter \<and>
   minter (scenario (\<lambda>a. True) 100 0 0) ex_owner \<and>
   minter (commit (scenario (\<lambda>a. True) 100 0 0)
             (addMinter ex_owner ex_owner (scenario (\<lambda>a. True) 100 0 0)))
     = minter (scenario (\<lambda>a. True) 100 0 0)"
proof -
  let ?s = "scenario (\<lambda>a. True) 100 0 0"
  have h: "ex_owner = owner ?s" by (simp add: ex_defs)
  have m1: "\<not> minter ?s ex_R1" by (simp add: ex_defs)
  have m2: "minter ?s ex_owner" by (simp add: ex_defs)
  show ?thesis
    using h m1 m2 minter_set_idempotent[OF h, of ex_R1 ex_owner] by (simp add: commit_def)
qed

text \<open>
  C9. The requirement computed by the pre-check is the number of under-threshold
  entries times the amount, modulo \<open>2 ^ 256\<close>, and the owner's call reverts with
  \<open>InsufficientTreasury\<close> exactly when the treasury balance is below that value. When
  the product reaches \<open>2 ^ 256\<close>, the computed requirement is smaller than the product,
  while the product itself exceeds every possible treasury balance.
\<close>

theorem need_wraps_around:
  "unat (need_loop s rs amount threshold 0) =
     (length (filter (\<lambda>r. balance s r < threshold) rs) * unat amount) mod 2 ^ 256 \<and>
   (sender = owner s \<longrightarrow> \<not> entered s \<longrightarrow>
      (distributeIfBelowFromTreasury sender rs amount threshold s = Inl InsufficientTreasury
       \<longleftrightarrow> unat (balance s (this_addr s)) <
           (length (filter (\<lambda>r. balance s r < threshold) rs) * unat amount) mod 2 ^ 256)) \<and>
   (2 ^ 256 \<le> length (filter (\<lambda>r. balance s r < threshold) rs) * unat amount \<longrightarrow>
      unat (need_loop s rs amount threshold 0) <
        length (filter (\<lambda>r. balance s r < threshold) rs) * unat amount \<and>
      unat (balance s (this_addr s)) <
        length (filter (\<lambda>r. balance s r < threshold) rs) * unat amount)"
proof -
  let ?k = "length (filter (\<lambda>r. balance s r < threshold) rs)"
  have n: "unat (need_loop s rs amount threshold 0) = (?k * unat amount) mod 2 ^ 256"
    by (simp add: unat_need_loop spec_required_count)
  have g: "sender = owner s \<longrightarrow> \<not> entered s \<longrightarrow>
      (distributeIfBelowFromTreasury sender rs amount threshold s = Inl InsufficientTreasury
       \<longleftrightarrow> unat (balance s (this_addr s)) < (?k * unat amount) mod 2 ^ 256)"
    by (simp add: distribute_by_owner word_less_nat_alt n)
  have b: "unat (balance s (this_addr s)) < 2 ^ 256"
    using unsigned_less[of "balance s (this_addr s)"] by simp
  have m: "(?k * unat amount) mod 2 ^ 256 < (2::nat) ^ 256" by simp
  have w: "2 ^ 256 \<le> ?k * unat amount \<longrightarrow>
      unat (need_loop s rs amount threshold 0) < ?k * unat amount \<and>
      unat (balance s (this_addr s)) < ?k * unat amount"
    using b m unfolding n by linarith
  from n g w show ?thesis by blast
qed

theorem need_wraps_around_witness:
  "ex_owner = owner (scenario (\<lambda>a. True) 5 0 0) \<and>
   \<not> entered (scenario (\<lambda>a. True) 5 0 0) \<and>
   (2::nat) ^ 256 \<le>
     length (filter (\<lambda>r. balance (scenario (\<lambda>a. True) 5 0 0) r < 1) [ex_R1, ex_R2])
       * unat (2 ^ 255 :: uint256) \<and>
   need_loop (scenario (\<lambda>a. True) 5 0 0) [ex_R1, ex_R2] (2 ^ 255) 1 0 = 0 \<and>
   distributeIfBelowFromTreasury ex_owner [ex_R1, ex_R2] (2 ^ 255) 1 (scenario (\<lambda>a. True) 5 0 0)
     \<noteq> Inl InsufficientTreasury"
proof -
  let ?s = "scenario (\<lambda>a. True) 5 0 0"
  have h1: "ex_owner = owner ?s" by (simp add: ex_defs)
  have h2: "\<not> entered ?s" by (simp add: ex_defs)
  have h3: "(2::nat) ^ 256 \<le>
     length (filter (\<lambda>r. balance ?s r < 1) [ex_R1, ex_R2]) * unat (2 ^ 255 :: uint256)"
    by (simp add: ex_defs)
  have h4: "need_loop ?s [ex_R1, ex_R2] (2 ^ 255) 1 0 = 0"
    by (simp add: ex_defs)
  have h5: "\<not> unat (balance ?s (this_addr ?s)) <
     (length (filter (\<lambda>r. balance ?s r < 1) [ex_R1, ex_R2]) * unat (2 ^ 255 :: uint256)) mod 2 ^ 256"
    by (simp add: ex_defs)
  show ?thesis
    using h1 h2 h3 h4 h5 need_wraps_around[of ?s "[ex_R1, ex_R2]" "2 ^ 255" 1 ex_owner]
    by blast
qed

text \<open>
  C10. Right after construction the deployer is a minter, and the owner, with no
  \<open>MinterAdded\<close> event emitted: no call of \<open>addMinter\<close> was needed.
\<close>

theorem constructor_deployer_is_minter:
  "minter (constructor sender self bal acc) sender \<and>
   owner (constructor sender self bal acc) = sender \<and>
   events (constructor sender self bal acc) = []"
  by (simp add: constructor_def)

end
